theory Spec2Isabelle
  imports Complex_Main "HOL-Library.Multiset" "HOL-Library.AList" "HOL-Library.List_Lexorder"
begin

section \<open>Data model of \<^verbatim>\<open>src/lib/planner.ts\<close>\<close>

text \<open>
  Strings are \<open>string\<close>; a JavaScript \<^verbatim>\<open>number\<close> that counts meals or stamps a time is an
  \<open>int\<close>, an ingredient quantity is a \<open>rat\<close> (exact arithmetic, no NaN and no rounding of
  sums). An optional field (\<^verbatim>\<open>quantity?: number\<close>) is an \<open>option\<close>, \<open>None\<close> standing for
  \<^verbatim>\<open>undefined\<close>.

  The planner imports \<^verbatim>\<open>MealType\<close>, \<^verbatim>\<open>Recipe\<close> and the catalog \<^verbatim>\<open>recipes\<close> from the module
  \<^verbatim>\<open>./recipes\<close>. The catalog is a parameter \<open>recipes\<close> of every function that consults it.
\<close>

text \<open>
  Modelled from the spec: the type \<^verbatim>\<open>MealType\<close> of \<^verbatim>\<open>src/lib/recipes.ts\<close>, which is not among the
  sources. The meal-type tag is one of breakfast, lunch and dinner (section 3); the planner
  writes the three as \<^verbatim>\<open>"breakfast"\<close>, \<^verbatim>\<open>"lunch"\<close> and \<^verbatim>\<open>"dinner"\<close>.
\<close>

datatype MealType = Breakfast | Lunch | Dinner

fun mealTypeStr :: "MealType \<Rightarrow> string" where
  "mealTypeStr Breakfast = ''breakfast''"
| "mealTypeStr Lunch = ''lunch''"
| "mealTypeStr Dinner = ''dinner''"

text \<open>
  Modelled from the spec: the type of an ingredient entry of \<^verbatim>\<open>src/lib/recipes.ts\<close>, which is
  not among the sources: an item name, an optional quantity and an optional unit
  (section 3). \<^verbatim>\<open>ShoppingLineItem\<close> of the planner has the same three fields, and
  \<^verbatim>\<open>{ ...ingredient }\<close> copies an entry into a line.
\<close>

record Ingredient =
  item :: string
  quantity :: "rat option"
  unit :: "string option"

type_synonym ShoppingLineItem = Ingredient

text \<open>
  Modelled from the spec: the type \<^verbatim>\<open>Recipe\<close> of \<^verbatim>\<open>src/lib/recipes.ts\<close>, which is not among the
  sources: an identifier, a meal-type tag, a cuisine tag, a protein tag, a list of
  ingredient entries, a serving count, a display name, a summary and a URL (section 3);
  these are the fields the planner and the page read. The field \<^verbatim>\<open>id\<close> is \<open>recipeId\<close> here
  (\<open>id\<close> is the identity function of HOL).
\<close>

record Recipe =
  recipeId :: string
  name :: string
  mealType :: MealType
  cuisine :: string
  protein :: string
  servings :: int
  summary :: string
  url :: string
  ingredients :: "Ingredient list"

type_synonym HistoryRecord = "string \<rightharpoonup> int"

record PlannerRequest =
  breakfasts :: int
  lunches :: int
  dinners :: int
  weekOf :: "string option"

text \<open>The meal type of a planned meal is \<open>slotMealType\<close> (the record \<open>Recipe\<close> has a field
  \<open>mealType\<close> already). \<open>dateLabel\<close> is optional because \<^verbatim>\<open>dateLabels[i] ?? dateLabels[n - 1]\<close>
  is \<^verbatim>\<open>undefined\<close> on an empty array.\<close>

record PlannedMeal =
  dayIndex :: nat
  slotMealType :: MealType
  recipe :: Recipe
  dateLabel :: "string option"

record PlannerResponse =
  meals :: "PlannedMeal list"
  shoppingList :: "ShoppingLineItem list"
  updatedHistory :: HistoryRecord

text \<open>\<^verbatim>\<open>throw new Error(msg)\<close> is \<open>Inl (Error msg)\<close>; \<open>RangeError\<close> is what date-fns throws when
  it is asked to format an invalid date.\<close>

datatype error = Error string | RangeError string

definition insufficientCandidates :: "MealType \<Rightarrow> error" where
  "insufficientCandidates mt =
     Error (''Not enough '' @ mealTypeStr mt @ '' recipes available without repeats or beef overage.'')"

definition noRequiredCuisine :: error where
  "noRequiredCuisine = Error ''No Spanish or Mexican recipes available that satisfy the rules.''"

section \<open>Shuffling\<close>

text \<open>
  \<^verbatim>\<open>Math.random()\<close> is an explicit source: \<open>rnd k\<close> is the \<open>k\<close>-th draw, a natural number, and
  \<^verbatim>\<open>Math.floor(Math.random() * (i + 1))\<close> is \<open>rnd k mod (i + 1)\<close>, so every index from \<open>0\<close> to
  \<open>i\<close> can be drawn. The number of draws made so far is threaded through every function
  that shuffles. The loop runs \<open>i\<close> from \<open>length arr - 1\<close> down to \<open>1\<close>.
\<close>

fun shuffleLoop :: "(nat \<Rightarrow> nat) \<Rightarrow> nat \<Rightarrow> nat \<Rightarrow> 'a list \<Rightarrow> 'a list \<times> nat" where
  "shuffleLoop rnd k 0 copy = (copy, k)"
| "shuffleLoop rnd k (Suc n) copy =
     (let i = Suc n; j = rnd k mod (i + 1)
      in shuffleLoop rnd (Suc k) n (copy[i := copy ! j, j := copy ! i]))"

definition shuffle :: "(nat \<Rightarrow> nat) \<Rightarrow> nat \<Rightarrow> 'a list \<Rightarrow> 'a list \<times> nat" where
  "shuffle rnd k arr = shuffleLoop rnd k (length arr - 1) arr"

section \<open>Slot selection\<close>

text \<open>The test \<^verbatim>\<open>recipe.protein === "beef"\<close>.\<close>

definition isBeef :: "Recipe \<Rightarrow> bool" where
  "isBeef r = (protein r = ''beef'')"

text \<open>One turn of \<^verbatim>\<open>candidates.forEach\<close>; the state is \<open>(selections, chosen, beefUsed)\<close>
  and \<open>cnt\<close> is the parameter \<^verbatim>\<open>count\<close>.\<close>

definition pickStep ::
  "int \<Rightarrow> Recipe \<Rightarrow> Recipe list \<times> string set \<times> bool \<Rightarrow> Recipe list \<times> string set \<times> bool" where
  "pickStep cnt r st =
     (case st of (selections, chosen, beefUsed) \<Rightarrow>
        if cnt \<le> int (length selections) then st
        else if recipeId r \<in> chosen then st
        else if isBeef r \<and> beefUsed then st
        else (selections @ [r], insert (recipeId r) chosen,
              if isBeef r then True else beefUsed))"

text \<open>\<open>pickRecipes\<close> returns the selections and the beef flag, as the source does, and with
  them the set \<open>chosen\<close> it has mutated and the number of random draws made.\<close>

definition pickRecipes ::
  "Recipe list \<Rightarrow> (nat \<Rightarrow> nat) \<Rightarrow> nat \<Rightarrow> MealType \<Rightarrow> int \<Rightarrow> string set \<Rightarrow> string set \<Rightarrow> bool
   \<Rightarrow> error + (Recipe list \<times> bool \<times> string set \<times> nat)" where
  "pickRecipes recipes rnd k mt cnt recentHistory chosen beefAlreadyUsed =
     (case shuffle rnd k (filter (\<lambda>r. mealType r = mt \<and> recipeId r \<notin> recentHistory) recipes) of
        (candidates, k') \<Rightarrow>
          (case fold (pickStep cnt) candidates ([], chosen, beefAlreadyUsed) of
             (selections, chosen', beefUsed) \<Rightarrow>
               if int (length selections) < cnt then Inl (insufficientCandidates mt)
               else Inr (selections, beefUsed, chosen', k')))"

section \<open>Variety repair\<close>

definition isIberian :: "Recipe \<Rightarrow> bool" where
  "isIberian r = (cuisine r \<in> set [''spanish'', ''mexican''])"

text \<open>The predicate of \<^verbatim>\<open>shuffle(recipes).find(...)\<close>.\<close>

definition replaces :: "string set \<Rightarrow> string set \<Rightarrow> bool \<Rightarrow> Recipe \<Rightarrow> Recipe \<Rightarrow> bool" where
  "replaces recentHistory chosen beefUsed toReplace r =
     (if mealType r \<noteq> mealType toReplace then False
      else if \<not> isIberian r then False
      else if recipeId r \<in> recentHistory \<or> recipeId r \<in> chosen then False
      else if isBeef r \<and> beefUsed then False
      else True)"

text \<open>\<^verbatim>\<open>plan.map((recipe) => (recipe.id === toReplace.id ? candidate : recipe))\<close>.\<close>

definition substitute :: "Recipe \<Rightarrow> Recipe \<Rightarrow> Recipe list \<Rightarrow> Recipe list" where
  "substitute toReplace candidate plan =
     map (\<lambda>r. if recipeId r = recipeId toReplace then candidate else r) plan"

text \<open>The \<^verbatim>\<open>for (const toReplace of plan)\<close> loop over the entries still to try.\<close>

fun ensureLoop ::
  "Recipe list \<Rightarrow> (nat \<Rightarrow> nat) \<Rightarrow> nat \<Rightarrow> Recipe list \<Rightarrow> string set \<Rightarrow> string set \<Rightarrow> bool
   \<Rightarrow> Recipe list \<Rightarrow> error + (Recipe list \<times> bool \<times> string set \<times> nat)" where
  "ensureLoop recipes rnd k plan recentHistory chosen beefUsed [] = Inl noRequiredCuisine"
| "ensureLoop recipes rnd k plan recentHistory chosen beefUsed (toReplace # rest) =
     (case shuffle rnd k recipes of
        (shuffled, k') \<Rightarrow>
          (case find (replaces recentHistory chosen beefUsed toReplace) shuffled of
             Some candidate \<Rightarrow>
               Inr (substitute toReplace candidate plan,
                    (if isBeef candidate then True else beefUsed),
                    insert (recipeId candidate) (chosen - {recipeId toReplace}),
                    k')
           | None \<Rightarrow> ensureLoop recipes rnd k' plan recentHistory chosen beefUsed rest))"

definition ensureSpanishOrMexican ::
  "Recipe list \<Rightarrow> (nat \<Rightarrow> nat) \<Rightarrow> nat \<Rightarrow> Recipe list \<Rightarrow> string set \<Rightarrow> string set \<Rightarrow> bool
   \<Rightarrow> error + (Recipe list \<times> bool \<times> string set \<times> nat)" where
  "ensureSpanishOrMexican recipes rnd k plan recentHistory chosen beefUsed =
     (if list_ex isIberian plan then Inr (plan, beefUsed, chosen, k)
      else ensureLoop recipes rnd k plan recentHistory chosen beefUsed plan)"

section \<open>Date labels\<close>

text \<open>
  \<open>fmt weekOf i\<close> stands for \<^verbatim>\<open>format(addDays(startDate, i), "EEE, MMM d")\<close> of date-fns, where
  \<^verbatim>\<open>startDate\<close> is \<^verbatim>\<open>new Date(weekOf)\<close> or the Monday of the current week; it is \<open>None\<close> when
  date-fns throws.
\<close>

fun collect :: "'a option list \<Rightarrow> 'a list option" where
  "collect [] = Some []"
| "collect (None # xs) = None"
| "collect (Some x # xs) = (case collect xs of None \<Rightarrow> None | Some ys \<Rightarrow> Some (x # ys))"

definition buildDateLabels ::
  "(string option \<Rightarrow> nat \<Rightarrow> string option) \<Rightarrow> string option \<Rightarrow> int \<Rightarrow> string list option" where
  "buildDateLabels fmt w totalDays = collect (map (fmt w) [0 ..< nat totalDays])"

section \<open>Shopping list\<close>

text \<open>
  \<^verbatim>\<open>toLowerCase\<close> on the ASCII letters; every other character is left as it is.
\<close>

definition lowerChar :: "char \<Rightarrow> char" where
  "lowerChar c =
     (if 65 \<le> (of_char c :: nat) \<and> (of_char c :: nat) \<le> 90 then char_of (of_char c + 32 :: nat) else c)"

definition toLowerCase :: "string \<Rightarrow> string" where
  "toLowerCase s = map lowerChar s"

text \<open>\<^verbatim>\<open>Math.round\<close>: the nearest integer, a tie going up.\<close>

definition mathRound :: "rat \<Rightarrow> rat" where
  "mathRound x = of_int \<lfloor>x + 1 / 2\<rfloor>"

text \<open>A quantity is truthy when it is present and not zero.\<close>

definition truthy :: "rat option \<Rightarrow> bool" where
  "truthy q = (case q of None \<Rightarrow> False | Some x \<Rightarrow> x \<noteq> 0)"

text \<open>
  The \<^verbatim>\<open>Map<string, ShoppingLineItem>\<close> is an association list in insertion order:
  \<open>map_of\<close> is \<^verbatim>\<open>map.get\<close> and \<open>AList.update\<close> is \<^verbatim>\<open>map.set\<close> (a key that is present keeps
  its place, a new key goes to the end). \<open>addIngredient\<close> is the body of the inner
  \<^verbatim>\<open>forEach\<close>.
\<close>

definition addIngredient ::
  "Ingredient \<Rightarrow> (string \<times> ShoppingLineItem) list \<Rightarrow> (string \<times> ShoppingLineItem) list" where
  "addIngredient ingredient m =
     (let key = toLowerCase (item ingredient) in
      case map_of m key of
        Some existing \<Rightarrow>
          if truthy (quantity existing) \<and> truthy (quantity ingredient) then
            AList.update key
              (existing\<lparr>quantity :=
                 (case (quantity existing, quantity ingredient) of
                    (Some a, Some b) \<Rightarrow> Some (mathRound ((a + b) * 100) / 100)
                  | _ \<Rightarrow> None)\<rparr>) m
          else
            AList.update key
              (existing\<lparr>quantity :=
                          (case quantity existing of Some q \<Rightarrow> Some q | None \<Rightarrow> quantity ingredient),
                        unit :=
                          (case unit existing of Some u \<Rightarrow> Some u | None \<Rightarrow> unit ingredient)\<rparr>) m
      | None \<Rightarrow> AList.update key ingredient m)"

definition shoppingMap :: "Recipe list \<Rightarrow> (string \<times> ShoppingLineItem) list" where
  "shoppingMap ms = fold (\<lambda>r m. fold addIngredient (ingredients r) m) ms []"

text \<open>
  \<^verbatim>\<open>a.item.localeCompare(b.item)\<close> compares collation keys: \<open>collate\<close> maps an item name to its
  key in a linear order. \<^verbatim>\<open>Array.prototype.sort\<close> is stable, as \<open>sort_key\<close> is.
\<close>

definition aggregateShopping :: "(string \<Rightarrow> 'k::linorder) \<Rightarrow> Recipe list \<Rightarrow> ShoppingLineItem list" where
  "aggregateShopping collate ms = sort_key (\<lambda>a. collate (item a)) (map snd (shoppingMap ms))"

section \<open>Plan generation\<close>

definition labelAt :: "string list \<Rightarrow> nat \<Rightarrow> string option" where
  "labelAt dateLabels i =
     (if i < length dateLabels then Some (dateLabels ! i)
      else if dateLabels = [] then None
      else Some (dateLabels ! (length dateLabels - 1)))"

definition addMeals :: "string list \<Rightarrow> MealType \<Rightarrow> Recipe list \<Rightarrow> PlannedMeal list" where
  "addMeals dateLabels mt selections =
     map (\<lambda>(index, r). \<lparr>dayIndex = index, slotMealType = mt, recipe = r,
                        dateLabel = labelAt dateLabels index\<rparr>)
         (enumerate 0 selections)"

definition recordUse :: "int \<Rightarrow> Recipe list \<Rightarrow> HistoryRecord \<Rightarrow> HistoryRecord" where
  "recordUse timestamp plan h = fold (\<lambda>r u. u(recipeId r \<mapsto> timestamp)) plan h"

text \<open>
  \<open>now\<close> is the value of \<^verbatim>\<open>Date.now()\<close>. The set \<^verbatim>\<open>new Set(Object.keys(recentHistory))\<close> is
  \<open>dom recentHistory\<close>.
\<close>

definition generateWeeklyPlan ::
  "Recipe list \<Rightarrow> (nat \<Rightarrow> nat) \<Rightarrow> (string option \<Rightarrow> nat \<Rightarrow> string option) \<Rightarrow> (string \<Rightarrow> 'k::linorder)
   \<Rightarrow> int \<Rightarrow> PlannerRequest \<Rightarrow> HistoryRecord \<Rightarrow> error + PlannerResponse" where
  "generateWeeklyPlan recipes rnd fmt collate now request recentHistory =
     (let recentSet = dom recentHistory in
      (case pickRecipes recipes rnd 0 Breakfast (breakfasts request) recentSet {} False of
         Inl e \<Rightarrow> Inl e
       | Inr (breakfastSel, beefUsed1, chosen1, k1) \<Rightarrow>
      (case pickRecipes recipes rnd k1 Lunch (lunches request) recentSet chosen1 beefUsed1 of
         Inl e \<Rightarrow> Inl e
       | Inr (lunchSel, beefUsed2, chosen2, k2) \<Rightarrow>
      (case pickRecipes recipes rnd k2 Dinner (dinners request) recentSet chosen2 beefUsed2 of
         Inl e \<Rightarrow> Inl e
       | Inr (dinnerSel, beefUsed3, chosen3, k3) \<Rightarrow>
      (case ensureSpanishOrMexican recipes rnd k3 (breakfastSel @ lunchSel @ dinnerSel)
              recentSet chosen3 beefUsed3 of
         Inl e \<Rightarrow> Inl e
       | Inr (plan, beefUsed4, chosen4, k4) \<Rightarrow>
      (let totalDays = max (max (max (breakfasts request) (lunches request)) (dinners request)) 5 in
       (case buildDateLabels fmt (weekOf request) totalDays of
          None \<Rightarrow> Inl (RangeError ''Invalid time value'')
        | Some dateLabels \<Rightarrow>
            Inr \<lparr>meals = addMeals dateLabels Breakfast (filter (\<lambda>r. mealType r = Breakfast) plan)
                        @ addMeals dateLabels Lunch (filter (\<lambda>r. mealType r = Lunch) plan)
                        @ addMeals dateLabels Dinner (filter (\<lambda>r. mealType r = Dinner) plan),
                 shoppingList = aggregateShopping collate plan,
                 updatedHistory = recordUse now plan recentHistory\<rparr>)))))))"

section \<open>Invariant of the selection\<close>

text \<open>
  What holds of the recipes selected so far, the set \<open>chosen\<close> and the beef flag: the
  identifiers are pairwise distinct, all in \<open>chosen\<close> and none in the recent history, at
  most one recipe is beef, and the flag is set once a beef recipe is in.
\<close>

definition planInv :: "string set \<Rightarrow> Recipe list \<Rightarrow> string set \<Rightarrow> bool \<Rightarrow> bool" where
  "planInv recent sel chosen beefUsed =
     (distinct (map recipeId sel) \<and> recipeId ` set sel \<subseteq> chosen \<and> recipeId ` set sel \<inter> recent = {}
      \<and> length (filter isBeef sel) \<le> 1 \<and> (list_ex isBeef sel \<longrightarrow> beefUsed))"

text \<open>The recipes of \<open>meals\<close>, in the order \<^verbatim>\<open>addMeals\<close> pushes them.\<close>

definition bySlot :: "Recipe list \<Rightarrow> Recipe list" where
  "bySlot plan = filter (\<lambda>r. mealType r = Breakfast) plan @ filter (\<lambda>r. mealType r = Lunch) plan
                 @ filter (\<lambda>r. mealType r = Dinner) plan"

text \<open>
  A second description of the scan, written from the words of the specification
  (section 4.1) and not from the source: scan the candidates in order, skip a candidate
  that is already chosen or that is beef once beef is used, accept every other one. It
  has no bound on the number accepted; \<open>fold_pickStep_take\<close> compares it with the scan of
  the source, which stops accepting at \<open>cnt\<close>.
\<close>

fun acceptedInFull :: "Recipe list \<Rightarrow> string set \<Rightarrow> bool \<Rightarrow> Recipe list" where
  "acceptedInFull [] chosen beefUsed = []"
| "acceptedInFull (r # rs) chosen beefUsed =
     (if recipeId r \<in> chosen \<or> (isBeef r \<and> beefUsed) then acceptedInFull rs chosen beefUsed
      else r # acceptedInFull rs (insert (recipeId r) chosen) (isBeef r \<or> beefUsed))"










section \<open>A sample catalog\<close>

definition oats :: Recipe where
  "oats = \<lparr>recipeId = ''oats'', name = ''Oats with figs'', mealType = Breakfast, cuisine = ''greek'',
           protein = ''none'', servings = 2, summary = [], url = [],
           ingredients = [\<lparr>item = ''Oats'', quantity = Some 1, unit = Some ''cup''\<rparr>]\<rparr>"

definition paella :: Recipe where
  "paella = \<lparr>recipeId = ''paella'', name = ''Paella'', mealType = Dinner, cuisine = ''spanish'',
           protein = ''chicken'', servings = 4, summary = [], url = [],
           ingredients = [\<lparr>item = ''Rice'', quantity = Some 2, unit = Some ''cup''\<rparr>]\<rparr>"

definition steak :: Recipe where
  "steak = \<lparr>recipeId = ''steak'', name = ''Steak'', mealType = Dinner, cuisine = ''italian'',
           protein = ''beef'', servings = 2, summary = [], url = [],
           ingredients = [\<lparr>item = ''Beef'', quantity = Some 1, unit = Some ''lb''\<rparr>]\<rparr>"

definition tagine :: Recipe where
  "tagine = \<lparr>recipeId = ''tagine'', name = ''Tagine'', mealType = Dinner, cuisine = ''moroccan'',
           protein = ''lamb'', servings = 4, summary = [], url = [],
           ingredients = [\<lparr>item = ''Lamb'', quantity = Some 1, unit = Some ''lb''\<rparr>]\<rparr>"

definition demoCatalog :: "Recipe list" where
  "demoCatalog = [oats, paella, steak, tagine]"

definition demoRequest :: PlannerRequest where
  "demoRequest = \<lparr>breakfasts = 1, lunches = 0, dinners = 2, weekOf = None\<rparr>"

definition demoHistory :: HistoryRecord where
  "demoHistory = [''tagine'' \<mapsto> 5]"

definition demoLabel :: "string option \<Rightarrow> nat \<Rightarrow> string option" where
  "demoLabel w i = Some ''Mon''"

text \<open>Two beef dinners and a request for two dinners.\<close>

definition ribs :: Recipe where
  "ribs = \<lparr>recipeId = ''ribs'', name = ''Short ribs'', mealType = Dinner, cuisine = ''french'',
           protein = ''beef'', servings = 4, summary = [], url = [],
           ingredients = [\<lparr>item = ''beef'', quantity = Some 2, unit = Some ''lb''\<rparr>]\<rparr>"

definition emptyRequest2 :: PlannerRequest where
  "emptyRequest2 = \<lparr>breakfasts = 0, lunches = 0, dinners = 2, weekOf = None\<rparr>"

text \<open>
  A collation for the samples: the character codes of the lower-cased name, compared
  lexicographically.
\<close>

definition asciiCollate :: "string \<Rightarrow> nat list" where
  "asciiCollate s = map of_char (toLowerCase s)"

definition ing :: "string \<Rightarrow> rat option \<Rightarrow> string option \<Rightarrow> Ingredient" where
  "ing i q u = \<lparr>item = i, quantity = q, unit = u\<rparr>"

definition dish :: "string \<Rightarrow> Ingredient list \<Rightarrow> Recipe" where
  "dish i xs = \<lparr>recipeId = i, name = i, mealType = Dinner, cuisine = ''greek'', protein = ''none'',
                servings = 2, summary = [], url = [], ingredients = xs\<rparr>"







definition saltToTaste :: Recipe where
  "saltToTaste = dish ''soup'' [ing ''salt'' (Some 0) None]"

definition saltMeasured :: Recipe where
  "saltMeasured = dish ''bread'' [ing ''salt'' (Some 2) (Some ''tsp'')]"

section \<open>Shuffling permutes\<close>

lemma shuffleLoop_mset:
  "n < length copy \<or> n = 0 \<Longrightarrow> mset (fst (shuffleLoop rnd k n copy)) = mset copy"
proof (induction n arbitrary: k copy)
  case 0
  then show ?case by simp
next
  case (Suc n)
  then have len: "Suc n < length copy" by simp
  define j where "j = rnd k mod (Suc n + 1)"
  have "j < Suc n + 1" unfolding j_def by (rule mod_less_divisor) simp
  then have j: "j < length copy" using len by linarith
  define copy' where "copy' = copy[Suc n := copy ! j, j := copy ! Suc n]"
  have "mset copy' = mset copy"
    unfolding copy'_def using j len by (rule mset_swap)
  moreover have "n < length copy'" using len by (simp add: copy'_def)
  ultimately have "mset (fst (shuffleLoop rnd (Suc k) n copy')) = mset copy"
    using Suc.IH [of copy' "Suc k"] by simp
  then show ?case by (simp add: Let_def j_def copy'_def)
qed

lemma shuffle_mset: "mset (fst (shuffle rnd k arr)) = mset arr"
  unfolding shuffle_def by (rule shuffleLoop_mset) (cases arr; simp)

lemma shuffle_set: "shuffle rnd k arr = (xs, k') \<Longrightarrow> set xs = set arr"
  using shuffle_mset [of rnd k arr] by (metis fst_conv mset_eq_setD)

section \<open>Slot selection keeps the invariant\<close>

lemma pickStep_inv:
  assumes "planInv recent (acc @ sel) chosen beefUsed" and "recipeId r \<notin> recent"
    and "pickStep cnt r (sel, chosen, beefUsed) = (sel', chosen', beefUsed')"
  shows "planInv recent (acc @ sel') chosen' beefUsed'"
proof (cases "(sel', chosen', beefUsed') = (sel, chosen, beefUsed)")
  case True
  with assms(1) show ?thesis by simp
next
  case False
  with assms(3) have new: "recipeId r \<notin> chosen" "\<not> (isBeef r \<and> beefUsed)"
    and res: "sel' = sel @ [r]" "chosen' = insert (recipeId r) chosen" "beefUsed' = (isBeef r \<or> beefUsed)"
    by (auto simp: pickStep_def split: if_splits)
  from assms(1) have d: "distinct (map recipeId (acc @ sel))" and sub: "recipeId ` set (acc @ sel) \<subseteq> chosen"
    and rec: "recipeId ` set (acc @ sel) \<inter> recent = {}" and one: "length (filter isBeef (acc @ sel)) \<le> 1"
    and used: "list_ex isBeef (acc @ sel) \<longrightarrow> beefUsed"
    by (simp_all add: planInv_def)
  have nobeef: "isBeef r \<Longrightarrow> filter isBeef (acc @ sel) = []"
    using new(2) used by (auto simp: list_ex_iff filter_empty_conv)
  have "distinct (map recipeId (acc @ sel'))"
    using d sub new(1) res(1) by auto
  moreover have "recipeId ` set (acc @ sel') \<subseteq> chosen'"
    using sub res by auto
  moreover have "recipeId ` set (acc @ sel') \<inter> recent = {}"
    using rec assms(2) res by auto
  moreover have "length (filter isBeef (acc @ sel')) \<le> 1"
  proof (cases "isBeef r")
    case True
    from nobeef [OF True] show ?thesis by (simp add: res(1) True)
  next
    case False
    then show ?thesis using one by (simp add: res(1))
  qed
  moreover have "list_ex isBeef (acc @ sel') \<longrightarrow> beefUsed'"
    using used res by (auto simp: list_ex_iff)
  ultimately show ?thesis by (simp add: planInv_def)
qed

lemma fold_pickStep_inv:
  assumes "planInv recent (acc @ sel) chosen beefUsed" and "\<forall>r\<in>set cs. recipeId r \<notin> recent"
    and "fold (pickStep cnt) cs (sel, chosen, beefUsed) = (sel', chosen', beefUsed')"
  shows "planInv recent (acc @ sel') chosen' beefUsed'"
  using assms
proof (induction cs arbitrary: sel chosen beefUsed)
  case Nil
  then show ?case by simp
next
  case (Cons c cs)
  obtain s1 c1 b1 where step: "pickStep cnt c (sel, chosen, beefUsed) = (s1, c1, b1)"
    by (cases "pickStep cnt c (sel, chosen, beefUsed)") auto
  have "planInv recent (acc @ s1) c1 b1"
    using pickStep_inv [OF Cons.prems(1) _ step] Cons.prems(2) by simp
  moreover have "fold (pickStep cnt) cs (s1, c1, b1) = (sel', chosen', beefUsed')"
    using Cons.prems(3) step by simp
  ultimately show ?case using Cons.IH Cons.prems(2) by simp
qed

lemma fold_pickStep_length:
  assumes "fold (pickStep cnt) cs (sel, chosen, beefUsed) = (sel', chosen', beefUsed')"
    and "int (length sel) \<le> cnt"
  shows "int (length sel') \<le> cnt"
  using assms
proof (induction cs arbitrary: sel chosen beefUsed)
  case Nil
  then show ?case by simp
next
  case (Cons c cs)
  obtain s1 c1 b1 where step: "pickStep cnt c (sel, chosen, beefUsed) = (s1, c1, b1)"
    by (cases "pickStep cnt c (sel, chosen, beefUsed)") auto
  then have "int (length s1) \<le> cnt"
    using Cons.prems(2) by (auto simp: pickStep_def split: if_splits)
  then show ?case using Cons.IH [of s1 c1 b1] Cons.prems(1) step by simp
qed

lemma fold_pickStep_set:
  assumes "fold (pickStep cnt) cs (sel, chosen, beefUsed) = (sel', chosen', beefUsed')"
  shows "set sel' \<subseteq> set sel \<union> set cs"
  using assms
proof (induction cs arbitrary: sel chosen beefUsed)
  case Nil
  then show ?case by simp
next
  case (Cons c cs)
  obtain s1 c1 b1 where step: "pickStep cnt c (sel, chosen, beefUsed) = (s1, c1, b1)"
    by (cases "pickStep cnt c (sel, chosen, beefUsed)") auto
  then have "set s1 \<subseteq> set sel \<union> {c}"
    by (auto simp: pickStep_def split: if_splits)
  then show ?case using Cons.IH [of s1 c1 b1] Cons.prems(1) step by auto
qed

text \<open>What a successful slot selection establishes.\<close>

lemma pickRecipes_Inr:
  assumes ok: "pickRecipes recipes rnd k mt cnt recent chosen beefUsed = Inr (sel, beefUsed', chosen', k')"
    and inv: "planInv recent acc chosen beefUsed"
  shows "planInv recent (acc @ sel) chosen' beefUsed'"
    and "\<forall>r\<in>set sel. mealType r = mt"
    and "0 \<le> cnt \<Longrightarrow> int (length sel) = cnt"
    and "set sel \<subseteq> set recipes"
proof -
  let ?cat = "filter (\<lambda>r. mealType r = mt \<and> recipeId r \<notin> recent) recipes"
  obtain cs kk where sh: "shuffle rnd k ?cat = (cs, kk)"
    by (cases "shuffle rnd k ?cat") auto
  obtain s c b where sc: "fold (pickStep cnt) cs ([], chosen, beefUsed) = (s, c, b)"
    by (cases "fold (pickStep cnt) cs ([], chosen, beefUsed)") auto
  from ok sh sc have eq: "s = sel" "c = chosen'" "b = beefUsed'" and enough: "\<not> int (length sel) < cnt"
    by (auto simp: pickRecipes_def split: if_splits)
  have cs: "set cs = set ?cat" using sh by (rule shuffle_set)
  then have fresh: "\<forall>r\<in>set cs. recipeId r \<notin> recent" by auto
  show "planInv recent (acc @ sel) chosen' beefUsed'"
    using fold_pickStep_inv [of recent acc "[]" chosen beefUsed cs cnt s c b] inv fresh sc eq by simp
  have sub: "set sel \<subseteq> set cs" using fold_pickStep_set [OF sc] eq by simp
  then show "\<forall>r\<in>set sel. mealType r = mt" using cs by auto
  show "set sel \<subseteq> set recipes" using sub cs by auto
  show "int (length sel) = cnt" if "0 \<le> cnt"
    using fold_pickStep_length [OF sc] that enough eq by simp
qed

section \<open>Variety repair keeps the invariant\<close>

lemma find_SomeD: "find P xs = Some x \<Longrightarrow> x \<in> set xs \<and> P x"
  by (induction xs) (auto split: if_splits)

lemma ensureLoop_Inr:
  assumes "ensureLoop recipes rnd k plan recent chosen beefUsed todo = Inr (plan', beefUsed', chosen', k')"
  shows "\<exists>pre t post c. todo = pre @ t # post
           \<and> (\<forall>u\<in>set pre. \<forall>x\<in>set recipes. \<not> replaces recent chosen beefUsed u x)
           \<and> c \<in> set recipes \<and> replaces recent chosen beefUsed t c
           \<and> plan' = substitute t c plan
           \<and> beefUsed' = (isBeef c \<or> beefUsed)
           \<and> chosen' = insert (recipeId c) (chosen - {recipeId t})"
  using assms
proof (induction todo arbitrary: k)
  case Nil
  then show ?case by simp
next
  case (Cons t rest)
  obtain shuffled kk where sh: "shuffle rnd k recipes = (shuffled, kk)"
    by (cases "shuffle rnd k recipes") auto
  have same: "set shuffled = set recipes" using sh by (rule shuffle_set)
  show ?case
  proof (cases "find (replaces recent chosen beefUsed t) shuffled")
    case None
    then have none: "\<forall>x\<in>set recipes. \<not> replaces recent chosen beefUsed t x"
      using same by (simp add: find_None_iff)
    from Cons.prems sh None
    have "ensureLoop recipes rnd kk plan recent chosen beefUsed rest = Inr (plan', beefUsed', chosen', k')"
      by simp
    from Cons.IH [OF this] obtain pre u post c where
      "rest = pre @ u # post"
      "\<forall>u\<in>set pre. \<forall>x\<in>set recipes. \<not> replaces recent chosen beefUsed u x"
      "c \<in> set recipes" "replaces recent chosen beefUsed u c" "plan' = substitute u c plan"
      "beefUsed' = (isBeef c \<or> beefUsed)" "chosen' = insert (recipeId c) (chosen - {recipeId u})"
      by blast
    then have "t # rest = (t # pre) @ u # post
           \<and> (\<forall>u\<in>set (t # pre). \<forall>x\<in>set recipes. \<not> replaces recent chosen beefUsed u x)
           \<and> c \<in> set recipes \<and> replaces recent chosen beefUsed u c
           \<and> plan' = substitute u c plan
           \<and> beefUsed' = (isBeef c \<or> beefUsed)
           \<and> chosen' = insert (recipeId c) (chosen - {recipeId u})"
      using none by simp
    then show ?thesis by blast
  next
    case (Some c)
    then have c: "c \<in> set recipes" "replaces recent chosen beefUsed t c"
      using same find_SomeD [OF Some] by auto
    from Cons.prems sh Some
    have "(substitute t c plan, (if isBeef c then True else beefUsed),
           insert (recipeId c) (chosen - {recipeId t}), kk) = (plan', beefUsed', chosen', k')"
      by simp
    then have "plan' = substitute t c plan" "beefUsed' = (isBeef c \<or> beefUsed)"
      "chosen' = insert (recipeId c) (chosen - {recipeId t})"
      by (auto split: if_splits)
    then have "t # rest = [] @ t # rest
           \<and> (\<forall>u\<in>set []. \<forall>x\<in>set recipes. \<not> replaces recent chosen beefUsed u x)
           \<and> c \<in> set recipes \<and> replaces recent chosen beefUsed t c
           \<and> plan' = substitute t c plan
           \<and> beefUsed' = (isBeef c \<or> beefUsed)
           \<and> chosen' = insert (recipeId c) (chosen - {recipeId t})"
      using c by simp
    then show ?thesis by blast
  qed
qed

lemma substitute_distinct:
  assumes "distinct (map recipeId (pre @ t # post))"
  shows "substitute t c (pre @ t # post) = pre @ c # post"
proof -
  have "recipeId t \<notin> recipeId ` set pre" "recipeId t \<notin> recipeId ` set post"
    using assms by simp_all
  then have "\<forall>r\<in>set pre \<union> set post. recipeId r \<noteq> recipeId t"
    by (metis UnE imageI)
  then have "map (\<lambda>r. if recipeId r = recipeId t then c else r) pre = pre"
    and "map (\<lambda>r. if recipeId r = recipeId t then c else r) post = post"
    by (simp_all add: map_idI)
  then show ?thesis by (simp add: substitute_def)
qed

lemma planInv_substitute:
  assumes inv: "planInv recent (pre @ t # post) chosen beefUsed"
    and rep: "replaces recent chosen beefUsed t c"
  shows "planInv recent (pre @ c # post) (insert (recipeId c) (chosen - {recipeId t})) (isBeef c \<or> beefUsed)"
proof -
  from rep have c: "recipeId c \<notin> recent" "recipeId c \<notin> chosen" "\<not> (isBeef c \<and> beefUsed)"
    by (auto simp: replaces_def split: if_splits)
  from inv have d: "distinct (map recipeId (pre @ t # post))" and sub: "recipeId ` set (pre @ t # post) \<subseteq> chosen"
    and rec: "recipeId ` set (pre @ t # post) \<inter> recent = {}" and one: "length (filter isBeef (pre @ t # post)) \<le> 1"
    and used: "list_ex isBeef (pre @ t # post) \<longrightarrow> beefUsed"
    by (simp_all add: planInv_def)
  have tn: "recipeId t \<notin> recipeId ` set pre" "recipeId t \<notin> recipeId ` set post"
    using d by simp_all
  have cn: "recipeId c \<notin> recipeId ` set pre" "recipeId c \<notin> recipeId ` set post"
    using sub c(2) by auto
  have "distinct (map recipeId (pre @ c # post))"
    using d cn by simp
  moreover have "recipeId ` set pre \<subseteq> chosen - {recipeId t}" "recipeId ` set post \<subseteq> chosen - {recipeId t}"
    using tn sub by (simp; blast)+
  then have "recipeId ` set (pre @ c # post) \<subseteq> insert (recipeId c) (chosen - {recipeId t})"
    by (simp add: image_Un) blast
  moreover have "recipeId ` set (pre @ c # post) \<inter> recent = {}"
    using rec c(1) by auto
  moreover have "length (filter isBeef (pre @ c # post)) \<le> 1"
  proof (cases "isBeef c")
    case True
    with c(3) used have "\<not> list_ex isBeef (pre @ t # post)" by blast
    then have "filter isBeef pre = []" "filter isBeef post = []"
      by (auto simp: list_ex_iff filter_empty_conv)
    then show ?thesis by simp
  next
    case False
    then show ?thesis using one by (simp split: if_splits)
  qed
  moreover have "list_ex isBeef (pre @ c # post) \<longrightarrow> (isBeef c \<or> beefUsed)"
    using used by (auto simp: list_ex_iff)
  ultimately show ?thesis by (simp add: planInv_def)
qed

lemma replaces_props:
  "replaces recent chosen beefUsed t c \<Longrightarrow> mealType c = mealType t \<and> isIberian c"
  by (auto simp: replaces_def split: if_splits)

text \<open>What a successful repair of a well-formed selection establishes.\<close>

lemma ensureSpanishOrMexican_Inr:
  assumes ok: "ensureSpanishOrMexican recipes rnd k plan recent chosen beefUsed = Inr (plan', beefUsed', chosen', k')"
    and inv: "planInv recent plan chosen beefUsed"
  shows "planInv recent plan' chosen' beefUsed'"
    and "list_ex isIberian plan'"
    and "map mealType plan' = map mealType plan"
proof -
  have "planInv recent plan' chosen' beefUsed' \<and> list_ex isIberian plan' \<and> map mealType plan' = map mealType plan"
  proof (cases "list_ex isIberian plan")
    case True
    with ok inv show ?thesis by (simp add: ensureSpanishOrMexican_def)
  next
    case False
    with ok have "ensureLoop recipes rnd k plan recent chosen beefUsed plan = Inr (plan', beefUsed', chosen', k')"
      by (simp add: ensureSpanishOrMexican_def)
    from ensureLoop_Inr [OF this] obtain pre t post c where
      split: "plan = pre @ t # post" and rep: "replaces recent chosen beefUsed t c"
      and res: "plan' = substitute t c plan" "beefUsed' = (isBeef c \<or> beefUsed)"
        "chosen' = insert (recipeId c) (chosen - {recipeId t})"
      by blast
    have "distinct (map recipeId (pre @ t # post))"
      using inv split by (simp add: planInv_def)
    then have p: "plan' = pre @ c # post"
      using res(1) split by (simp add: substitute_distinct)
    have "planInv recent plan' chosen' beefUsed'"
      using planInv_substitute [OF inv [unfolded split] rep] p res by simp
    moreover have "list_ex isIberian plan'"
      using replaces_props [OF rep] p by simp
    moreover have "map mealType plan' = map mealType plan"
      using replaces_props [OF rep] p split by simp
    ultimately show ?thesis by simp
  qed
  then show "planInv recent plan' chosen' beefUsed'" and "list_ex isIberian plan'"
    and "map mealType plan' = map mealType plan" by simp_all
qed

section \<open>Successful runs\<close>

lemma planInv_start: "planInv recent [] chosen beefUsed"
  by (simp add: planInv_def)

lemma recipe_addMeals: "map recipe (addMeals dateLabels mt sel) = sel"
proof -
  have "map recipe (addMeals dateLabels mt sel) = map snd (enumerate 0 sel)"
    by (simp add: addMeals_def case_prod_unfold comp_def)
  then show ?thesis by simp
qed

lemma mset_bySlot: "mset (bySlot plan) = mset plan"
proof (induction plan)
  case Nil
  then show ?case by (simp add: bySlot_def)
next
  case (Cons r plan)
  then show ?case by (cases "mealType r") (simp_all add: bySlot_def)
qed

text \<open>The shape of every successful run.\<close>

lemma generateWeeklyPlan_Inr:
  assumes "generateWeeklyPlan recipes rnd fmt collate now request recentHistory = Inr response"
  shows "\<exists>plan chosen beefUsed.
           planInv (dom recentHistory) plan chosen beefUsed \<and> list_ex isIberian plan
           \<and> map recipe (meals response) = bySlot plan
           \<and> shoppingList response = aggregateShopping collate plan
           \<and> updatedHistory response = recordUse now plan recentHistory
           \<and> (0 \<le> breakfasts request \<longrightarrow> 0 \<le> lunches request \<longrightarrow> 0 \<le> dinners request \<longrightarrow>
                int (length plan) = breakfasts request + lunches request + dinners request)"
proof -
  let ?recent = "dom recentHistory"
  from assms obtain bs b1 c1 k1 where
    p1: "pickRecipes recipes rnd 0 Breakfast (breakfasts request) ?recent {} False = Inr (bs, b1, c1, k1)"
    by (auto simp: generateWeeklyPlan_def Let_def split: sum.splits)
  from assms p1 obtain ls b2 c2 k2 where
    p2: "pickRecipes recipes rnd k1 Lunch (lunches request) ?recent c1 b1 = Inr (ls, b2, c2, k2)"
    by (auto simp: generateWeeklyPlan_def Let_def split: sum.splits)
  from assms p1 p2 obtain ds b3 c3 k3 where
    p3: "pickRecipes recipes rnd k2 Dinner (dinners request) ?recent c2 b2 = Inr (ds, b3, c3, k3)"
    by (auto simp: generateWeeklyPlan_def Let_def split: sum.splits)
  from assms p1 p2 p3 obtain plan b4 c4 k4 where
    e: "ensureSpanishOrMexican recipes rnd k3 (bs @ ls @ ds) ?recent c3 b3 = Inr (plan, b4, c4, k4)"
    by (auto simp: generateWeeklyPlan_def Let_def split: sum.splits)
  from assms p1 p2 p3 e obtain dateLabels where
    r: "response = \<lparr>meals = addMeals dateLabels Breakfast (filter (\<lambda>r. mealType r = Breakfast) plan)
                      @ addMeals dateLabels Lunch (filter (\<lambda>r. mealType r = Lunch) plan)
                      @ addMeals dateLabels Dinner (filter (\<lambda>r. mealType r = Dinner) plan),
               shoppingList = aggregateShopping collate plan,
               updatedHistory = recordUse now plan recentHistory\<rparr>"
    by (auto simp: generateWeeklyPlan_def Let_def split: sum.splits option.splits)
  have i1: "planInv ?recent ([] @ bs) c1 b1"
    using p1 planInv_start by (rule pickRecipes_Inr(1))
  then have i2: "planInv ?recent (bs @ ls) c2 b2"
    using pickRecipes_Inr(1) [OF p2, of bs] by simp
  then have i3: "planInv ?recent ((bs @ ls) @ ds) c3 b3"
    using pickRecipes_Inr(1) [OF p3, of "bs @ ls"] by simp
  then have i4: "planInv ?recent plan c4 b4" and ib: "list_ex isIberian plan"
    and mt: "map mealType plan = map mealType (bs @ ls @ ds)"
    using ensureSpanishOrMexican_Inr [OF e] by simp_all
  have len: "length plan = length bs + length ls + length ds"
    using arg_cong [OF mt, of length] by simp
  have "int (length plan) = breakfasts request + lunches request + dinners request"
    if "0 \<le> breakfasts request" "0 \<le> lunches request" "0 \<le> dinners request"
    using pickRecipes_Inr(3) [OF p1 planInv_start that(1)] pickRecipes_Inr(3) [OF p2 i1 that(2)]
      pickRecipes_Inr(3) [OF p3 i2 that(3)] len by simp
  moreover have "map recipe (meals response) = bySlot plan"
    by (simp add: r recipe_addMeals bySlot_def)
  moreover have "shoppingList response = aggregateShopping collate plan"
    and "updatedHistory response = recordUse now plan recentHistory"
    by (simp_all add: r)
  ultimately show ?thesis using i4 ib by blast
qed

lemma demo_pick_breakfast:
  "pickRecipes demoCatalog (\<lambda>k. 0) 0 Breakfast 1 (dom demoHistory) {} False = Inr ([oats], False, {''oats''}, 0)"
  by (simp add: pickRecipes_def demoCatalog_def demoHistory_def oats_def paella_def steak_def tagine_def
      shuffle_def pickStep_def isBeef_def)

lemma demo_pick_lunch:
  "pickRecipes demoCatalog (\<lambda>k. 0) 0 Lunch 0 (dom demoHistory) {''oats''} False = Inr ([], False, {''oats''}, 0)"
  by (simp add: pickRecipes_def demoCatalog_def demoHistory_def oats_def paella_def steak_def tagine_def
      shuffle_def pickStep_def isBeef_def)

lemma demo_pick_dinner:
  "pickRecipes demoCatalog (\<lambda>k. 0) 0 Dinner 2 (dom demoHistory) {''oats''} False
   = Inr ([steak, paella], True, {''paella'', ''steak'', ''oats''}, 1)"
  by (simp add: pickRecipes_def demoCatalog_def demoHistory_def oats_def paella_def steak_def tagine_def
      shuffle_def pickStep_def isBeef_def)

lemma demo_ensure:
  "ensureSpanishOrMexican demoCatalog (\<lambda>k. 0) (Suc 0) [oats, steak, paella] (dom demoHistory)
     {''paella'', ''steak'', ''oats''} True
   = Inr ([oats, steak, paella], True, {''paella'', ''steak'', ''oats''}, Suc 0)"
  by (simp add: ensureSpanishOrMexican_def isIberian_def oats_def paella_def steak_def)

lemma demo_labels: "buildDateLabels demoLabel None 5 = Some [''Mon'', ''Mon'', ''Mon'', ''Mon'', ''Mon'']"
  by (simp add: buildDateLabels_def demoLabel_def upt_rec)

lemma demo_run:
  "\<exists>response. generateWeeklyPlan demoCatalog (\<lambda>k. 0) demoLabel asciiCollate 0 demoRequest demoHistory = Inr response"
  by (simp add: generateWeeklyPlan_def demoRequest_def demo_pick_breakfast demo_pick_lunch demo_pick_dinner
      demo_ensure demo_labels)

lemma recordUse_apply:
  "recordUse ts plan h k = (if k \<in> recipeId ` set plan then Some ts else h k)"
  unfolding recordUse_def by (induction plan arbitrary: h) auto

lemma planInv_bySlot:
  assumes "planInv recent plan chosen beefUsed"
  shows "distinct (map recipeId (bySlot plan))" and "length (filter isBeef (bySlot plan)) \<le> 1"
    and "recipeId ` set (bySlot plan) \<inter> recent = {}"
proof -
  have m: "mset (map recipeId (bySlot plan)) = mset (map recipeId plan)"
    by (simp add: mset_bySlot)
  have "distinct (map recipeId plan)" using assms by (simp add: planInv_def)
  then show "distinct (map recipeId (bySlot plan))"
    using m by (metis mset_eq_imp_distinct_iff)
  have "size (filter_mset isBeef (mset (bySlot plan))) = size (filter_mset isBeef (mset plan))"
    by (simp add: mset_bySlot)
  then have "length (filter isBeef (bySlot plan)) = length (filter isBeef plan)"
    by (simp only: mset_filter [symmetric] size_mset)
  then show "length (filter isBeef (bySlot plan)) \<le> 1"
    using assms by (simp add: planInv_def)
  have "set (bySlot plan) = set plan"
    using mset_bySlot [of plan] by (rule mset_eq_setD)
  then show "recipeId ` set (bySlot plan) \<inter> recent = {}"
    using assms by (simp add: planInv_def)
qed

section \<open>Properties of a returned plan\<close>

text \<open>
  C1. For every catalog, request, history snapshot and random source, a plan that
  \<open>generateWeeklyPlan\<close> returns holds at most one meal whose recipe has the protein tag
  \<^verbatim>\<open>"beef"\<close>.
\<close>

theorem beef_cap:
  assumes "generateWeeklyPlan recipes rnd fmt collate now request recentHistory = Inr response"
  shows "length (filter (\<lambda>m. protein (recipe m) = ''beef'') (meals response)) \<le> 1"
proof -
  from generateWeeklyPlan_Inr [OF assms] obtain plan chosen beefUsed where
    inv: "planInv (dom recentHistory) plan chosen beefUsed"
    and ms: "map recipe (meals response) = bySlot plan"
    by blast
  have "map recipe (filter (\<lambda>m. isBeef (recipe m)) (meals response))
        = filter isBeef (map recipe (meals response))"
    by (simp add: filter_map comp_def)
  also have "\<dots> = filter isBeef (bySlot plan)"
    by (simp only: ms)
  finally have "length (filter (\<lambda>m. isBeef (recipe m)) (meals response)) = length (filter isBeef (bySlot plan))"
    by (metis length_map)
  then have "length (filter (\<lambda>m. isBeef (recipe m)) (meals response)) \<le> 1"
    using planInv_bySlot(2) [OF inv] by simp
  then show ?thesis by (simp add: isBeef_def)
qed

theorem beef_cap_witness:
  "\<exists>response. generateWeeklyPlan demoCatalog (\<lambda>k. 0) demoLabel asciiCollate 0 demoRequest demoHistory = Inr response
     \<and> length (filter (\<lambda>m. protein (recipe m) = ''beef'') (meals response)) \<le> 1"
proof -
  from demo_run obtain response where
    run: "generateWeeklyPlan demoCatalog (\<lambda>k. 0) demoLabel asciiCollate 0 demoRequest demoHistory = Inr response"
    by blast
  from beef_cap [OF run] run show ?thesis by blast
qed

text \<open>
  C2. For every request whose three counts are not negative, a returned plan has
  \<open>breakfasts + lunches + dinners\<close> meals, and no two of them have the same recipe
  identifier.
\<close>

theorem plan_size_and_uniqueness:
  assumes "generateWeeklyPlan recipes rnd fmt collate now request recentHistory = Inr response"
    and "0 \<le> breakfasts request" and "0 \<le> lunches request" and "0 \<le> dinners request"
  shows "int (length (meals response)) = breakfasts request + lunches request + dinners request
         \<and> distinct (map (\<lambda>m. recipeId (recipe m)) (meals response))"
proof -
  from generateWeeklyPlan_Inr [OF assms(1)] assms(2-4) obtain plan chosen beefUsed where
    inv: "planInv (dom recentHistory) plan chosen beefUsed"
    and ms: "map recipe (meals response) = bySlot plan"
    and len: "int (length plan) = breakfasts request + lunches request + dinners request"
    by blast
  have "length (meals response) = length (bySlot plan)"
    using ms by (metis length_map)
  also have "\<dots> = length plan"
    using mset_bySlot [of plan] by (metis size_mset)
  finally have "int (length (meals response)) = breakfasts request + lunches request + dinners request"
    using len by simp
  moreover have "map (\<lambda>m. recipeId (recipe m)) (meals response) = map recipeId (bySlot plan)"
    using ms [symmetric] by (simp add: comp_def)
  ultimately show ?thesis using planInv_bySlot(1) [OF inv] by simp
qed

theorem plan_size_and_uniqueness_witness:
  "\<exists>response. generateWeeklyPlan demoCatalog (\<lambda>k. 0) demoLabel asciiCollate 0 demoRequest demoHistory = Inr response
     \<and> 0 \<le> breakfasts demoRequest \<and> 0 \<le> lunches demoRequest \<and> 0 \<le> dinners demoRequest
     \<and> int (length (meals response)) = breakfasts demoRequest + lunches demoRequest + dinners demoRequest
     \<and> distinct (map (\<lambda>m. recipeId (recipe m)) (meals response))"
proof -
  from demo_run obtain response where
    run: "generateWeeklyPlan demoCatalog (\<lambda>k. 0) demoLabel asciiCollate 0 demoRequest demoHistory = Inr response"
    by blast
  have nonneg: "0 \<le> breakfasts demoRequest" "0 \<le> lunches demoRequest" "0 \<le> dinners demoRequest"
    by (simp_all add: demoRequest_def)
  from plan_size_and_uniqueness [OF run nonneg] run nonneg show ?thesis by blast
qed

text \<open>
  C3. A returned plan holds at least one meal whose recipe has the cuisine tag
  \<^verbatim>\<open>"spanish"\<close> or \<^verbatim>\<open>"mexican"\<close>. This holds for every catalog, so also for the catalogs
  the specification speaks of, which hold such a recipe for a meal type of the plan.
\<close>

theorem required_cuisine_present:
  assumes "generateWeeklyPlan recipes rnd fmt collate now request recentHistory = Inr response"
  shows "\<exists>m\<in>set (meals response). cuisine (recipe m) = ''spanish'' \<or> cuisine (recipe m) = ''mexican''"
proof -
  from generateWeeklyPlan_Inr [OF assms] obtain plan where
    ib: "list_ex isIberian plan" and ms: "map recipe (meals response) = bySlot plan"
    by blast
  from ib obtain r where r: "r \<in> set plan" "isIberian r"
    by (auto simp: list_ex_iff)
  have "set (bySlot plan) = set plan"
    using mset_bySlot [of plan] by (rule mset_eq_setD)
  then have "r \<in> recipe ` set (meals response)"
    using r(1) ms by (metis set_map)
  then obtain m where "m \<in> set (meals response)" "recipe m = r" by blast
  then show ?thesis using r(2) by (auto simp: isIberian_def)
qed

theorem required_cuisine_present_witness:
  "\<exists>response. generateWeeklyPlan demoCatalog (\<lambda>k. 0) demoLabel asciiCollate 0 demoRequest demoHistory = Inr response
     \<and> (\<exists>m\<in>set (meals response). cuisine (recipe m) = ''spanish'' \<or> cuisine (recipe m) = ''mexican'')"
proof -
  from demo_run obtain response where
    run: "generateWeeklyPlan demoCatalog (\<lambda>k. 0) demoLabel asciiCollate 0 demoRequest demoHistory = Inr response"
    by blast
  from required_cuisine_present [OF run] run show ?thesis by blast
qed

text \<open>
  C4. No recipe identifier that is a key of the input history snapshot is the identifier of
  a recipe of a returned plan.
\<close>

theorem no_recent_recipe:
  assumes "generateWeeklyPlan recipes rnd fmt collate now request recentHistory = Inr response"
  shows "\<forall>m\<in>set (meals response). recipeId (recipe m) \<notin> dom recentHistory"
proof
  fix m assume m: "m \<in> set (meals response)"
  from generateWeeklyPlan_Inr [OF assms] obtain plan chosen beefUsed where
    inv: "planInv (dom recentHistory) plan chosen beefUsed"
    and ms: "map recipe (meals response) = bySlot plan"
    by blast
  have "recipe m \<in> set (bySlot plan)"
    using m ms by (metis imageI set_map)
  then show "recipeId (recipe m) \<notin> dom recentHistory"
    using planInv_bySlot(3) [OF inv] by blast
qed

theorem no_recent_recipe_witness:
  "\<exists>response. generateWeeklyPlan demoCatalog (\<lambda>k. 0) demoLabel asciiCollate 0 demoRequest demoHistory = Inr response
     \<and> (\<forall>m\<in>set (meals response). recipeId (recipe m) \<notin> dom demoHistory)"
proof -
  from demo_run obtain response where
    run: "generateWeeklyPlan demoCatalog (\<lambda>k. 0) demoLabel asciiCollate 0 demoRequest demoHistory = Inr response"
    by blast
  from no_recent_recipe [OF run] run show ?thesis by blast
qed

text \<open>
  C5. The history returned with a plan holds every entry of the input history unchanged;
  its keys are the keys of the input history and the identifiers of the recipes of the
  plan, one entry for each; and every recipe of the plan is stamped with the one timestamp
  \<open>now\<close>.
\<close>

theorem updated_history:
  assumes "generateWeeklyPlan recipes rnd fmt collate now request recentHistory = Inr response"
  shows "recentHistory \<subseteq>\<^sub>m updatedHistory response
         \<and> dom (updatedHistory response)
             = dom recentHistory \<union> (\<lambda>m. recipeId (recipe m)) ` set (meals response)
         \<and> (\<forall>m\<in>set (meals response). updatedHistory response (recipeId (recipe m)) = Some now)"
proof -
  from generateWeeklyPlan_Inr [OF assms] obtain plan chosen beefUsed where
    inv: "planInv (dom recentHistory) plan chosen beefUsed"
    and ms: "map recipe (meals response) = bySlot plan"
    and up: "updatedHistory response = recordUse now plan recentHistory"
    by blast
  have "set (bySlot plan) = set plan"
    using mset_bySlot [of plan] by (rule mset_eq_setD)
  then have "recipe ` set (meals response) = set plan"
    using ms by (metis set_map)
  then have ids: "(\<lambda>m. recipeId (recipe m)) ` set (meals response) = recipeId ` set plan"
    by (metis image_image)
  have fresh: "recipeId ` set plan \<inter> dom recentHistory = {}"
    using inv by (simp add: planInv_def)
  have "recentHistory \<subseteq>\<^sub>m updatedHistory response"
    unfolding map_le_def up recordUse_apply using fresh by auto
  moreover have "dom (updatedHistory response) = dom recentHistory \<union> recipeId ` set plan"
    unfolding up by (auto simp: recordUse_apply dom_def)
  moreover have "\<forall>m\<in>set (meals response). updatedHistory response (recipeId (recipe m)) = Some now"
  proof
    fix m assume "m \<in> set (meals response)"
    then have "recipeId (recipe m) \<in> recipeId ` set plan"
      using ids by blast
    then show "updatedHistory response (recipeId (recipe m)) = Some now"
      unfolding up by (simp add: recordUse_apply)
  qed
  ultimately show ?thesis unfolding ids by blast
qed

theorem updated_history_witness:
  "\<exists>response. generateWeeklyPlan demoCatalog (\<lambda>k. 0) demoLabel asciiCollate 0 demoRequest demoHistory = Inr response
     \<and> demoHistory \<subseteq>\<^sub>m updatedHistory response
     \<and> dom (updatedHistory response)
         = dom demoHistory \<union> (\<lambda>m. recipeId (recipe m)) ` set (meals response)
     \<and> (\<forall>m\<in>set (meals response). updatedHistory response (recipeId (recipe m)) = Some 0)"
proof -
  from demo_run obtain response where
    run: "generateWeeklyPlan demoCatalog (\<lambda>k. 0) demoLabel asciiCollate 0 demoRequest demoHistory = Inr response"
    by blast
  from updated_history [OF run] run show ?thesis by blast
qed

section \<open>The empty request\<close>

lemma pickRecipes_zero:
  "\<exists>k'. pickRecipes recipes rnd k mt 0 recent chosen beefUsed = Inr ([], beefUsed, chosen, k')"
proof -
  have scan: "fold (pickStep 0) cs ([], chosen, beefUsed) = ([], chosen, beefUsed)" for cs
    by (induction cs) (simp_all add: pickStep_def)
  show ?thesis
    by (simp add: pickRecipes_def scan split: prod.splits)
qed

text \<open>
  C10. For the request with no breakfasts, no lunches and no dinners, whatever the catalog,
  the history snapshot, the random draws and the week, \<open>generateWeeklyPlan\<close> returns no
  plan: it fails with the error of the variety repairer, since the empty selection holds no
  Spanish or Mexican recipe and offers no entry to replace.
\<close>

theorem generateWeeklyPlan_empty_request:
  "generateWeeklyPlan recipes rnd fmt collate now
     \<lparr>breakfasts = 0, lunches = 0, dinners = 0, weekOf = w\<rparr> recentHistory
   = Inl (Error ''No Spanish or Mexican recipes available that satisfy the rules.'')"
proof -
  obtain k1 where p1:
    "pickRecipes recipes rnd 0 Breakfast 0 (dom recentHistory) {} False = Inr ([], False, {}, k1)"
    using pickRecipes_zero by blast
  obtain k2 where p2:
    "pickRecipes recipes rnd k1 Lunch 0 (dom recentHistory) {} False = Inr ([], False, {}, k2)"
    using pickRecipes_zero by blast
  obtain k3 where p3:
    "pickRecipes recipes rnd k2 Dinner 0 (dom recentHistory) {} False = Inr ([], False, {}, k3)"
    using pickRecipes_zero by blast
  show ?thesis
    by (simp add: generateWeeklyPlan_def p1 p2 p3 ensureSpanishOrMexican_def noRequiredCuisine_def)
qed

section \<open>Failure of slot selection\<close>

lemma fold_pickStep_take:
  "fst (fold (pickStep cnt) cs (sel, chosen, beefUsed))
   = sel @ take (nat cnt - length sel) (acceptedInFull cs chosen beefUsed)"
proof (induction cs arbitrary: sel chosen beefUsed)
  case Nil
  then show ?case by simp
next
  case (Cons r rs)
  show ?case
  proof (cases "cnt \<le> int (length sel)")
    case True
    then have "pickStep cnt r (sel, chosen, beefUsed) = (sel, chosen, beefUsed)"
      by (simp add: pickStep_def)
    moreover from True have "nat cnt - length sel = 0" by simp
    ultimately show ?thesis using Cons.IH [of sel chosen beefUsed] by simp
  next
    case False
    then have pos: "nat cnt - length sel = Suc (nat cnt - length (sel @ [r]))" by simp
    show ?thesis
    proof (cases "recipeId r \<in> chosen \<or> (isBeef r \<and> beefUsed)")
      case True
      then have "pickStep cnt r (sel, chosen, beefUsed) = (sel, chosen, beefUsed)"
        by (auto simp: pickStep_def)
      then show ?thesis using True Cons.IH [of sel chosen beefUsed] by simp
    next
      case rej: False
      then have "pickStep cnt r (sel, chosen, beefUsed)
                 = (sel @ [r], insert (recipeId r) chosen, isBeef r \<or> beefUsed)"
        using False by (auto simp: pickStep_def)
      then show ?thesis
        using rej Cons.IH [of "sel @ [r]" "insert (recipeId r) chosen" "isBeef r \<or> beefUsed"]
        by (simp only: fold_simps comp_apply acceptedInFull.simps if_False pos take_Suc_Cons) simp
    qed
  qed
qed

lemma pickRecipes_few:
  assumes "int (length (acceptedInFull (fst (shuffle rnd k (filter (\<lambda>r. mealType r = mt \<and> recipeId r \<notin> recent) recipes)))
                          chosen beefUsed)) < cnt"
  shows "pickRecipes recipes rnd k mt cnt recent chosen beefUsed = Inl (insufficientCandidates mt)"
proof -
  let ?cs = "fst (shuffle rnd k (filter (\<lambda>r. mealType r = mt \<and> recipeId r \<notin> recent) recipes))"
  have "fst (fold (pickStep cnt) ?cs ([], chosen, beefUsed)) = take (nat cnt) (acceptedInFull ?cs chosen beefUsed)"
    using fold_pickStep_take [of cnt ?cs "[]" chosen beefUsed] by simp
  then have "int (length (fst (fold (pickStep cnt) ?cs ([], chosen, beefUsed)))) < cnt"
    using assms by simp
  then show ?thesis
    by (simp add: pickRecipes_def case_prod_unfold)
qed

lemma pickRecipes_cases:
  "pickRecipes recipes rnd k mt cnt recent chosen beefUsed = Inl (insufficientCandidates mt)
   \<or> (\<exists>sel b c k'. pickRecipes recipes rnd k mt cnt recent chosen beefUsed = Inr (sel, b, c, k'))"
  by (simp add: pickRecipes_def split: prod.splits)

lemma pickRecipes_all_beef:
  assumes beef: "\<forall>r\<in>set recipes. mealType r = mt \<longrightarrow> isBeef r" and two: "2 \<le> cnt"
  shows "pickRecipes recipes rnd k mt cnt recent chosen beefUsed = Inl (insufficientCandidates mt)"
proof (rule ccontr)
  assume "pickRecipes recipes rnd k mt cnt recent chosen beefUsed \<noteq> Inl (insufficientCandidates mt)"
  then obtain sel b c k' where
    ok: "pickRecipes recipes rnd k mt cnt recent chosen beefUsed = Inr (sel, b, c, k')"
    using pickRecipes_cases [of recipes rnd k mt cnt recent chosen beefUsed] by blast
  have inv: "planInv recent [] chosen beefUsed" by (rule planInv_start)
  have "planInv recent ([] @ sel) c b" using ok inv by (rule pickRecipes_Inr(1))
  then have one: "length (filter isBeef sel) \<le> 1" by (simp add: planInv_def)
  have "\<forall>r\<in>set sel. isBeef r"
    using pickRecipes_Inr(2) [OF ok inv] pickRecipes_Inr(4) [OF ok inv] beef by blast
  then have "filter isBeef sel = sel" by simp
  moreover have "int (length sel) = cnt"
    using pickRecipes_Inr(3) [OF ok inv] two by simp
  ultimately show False using one two by simp
qed

lemma two_beef_dinners:
  assumes "filter (\<lambda>r. mealType r = Dinner) recipes = [d1, d2]" "isBeef d1" "isBeef d2"
  shows "\<forall>r\<in>set recipes. mealType r = Dinner \<longrightarrow> isBeef r"
proof (intro ballI impI)
  fix r assume "r \<in> set recipes" "mealType r = Dinner"
  then have "r \<in> set (filter (\<lambda>r. mealType r = Dinner) recipes)" by simp
  then show "isBeef r" using assms by auto
qed

lemma generateWeeklyPlan_dinner_fails:
  assumes "\<And>k chosen beefUsed.
             pickRecipes recipes rnd k Dinner (dinners request) (dom recentHistory) chosen beefUsed
             = Inl (insufficientCandidates Dinner)"
  shows "\<exists>mt. generateWeeklyPlan recipes rnd fmt collate now request recentHistory
              = Inl (insufficientCandidates mt)"
proof -
  let ?recent = "dom recentHistory"
  consider (b) "pickRecipes recipes rnd 0 Breakfast (breakfasts request) ?recent {} False
                = Inl (insufficientCandidates Breakfast)"
    | (ok) bs b1 c1 k1 where "pickRecipes recipes rnd 0 Breakfast (breakfasts request) ?recent {} False
                = Inr (bs, b1, c1, k1)"
    using pickRecipes_cases by blast
  then show ?thesis
  proof cases
    case b
    then show ?thesis by (auto simp: generateWeeklyPlan_def)
  next
    case ok
    consider (l) "pickRecipes recipes rnd k1 Lunch (lunches request) ?recent c1 b1
                  = Inl (insufficientCandidates Lunch)"
      | (ok2) ls b2 c2 k2 where "pickRecipes recipes rnd k1 Lunch (lunches request) ?recent c1 b1
                  = Inr (ls, b2, c2, k2)"
      using pickRecipes_cases by blast
    then show ?thesis
    proof cases
      case l
      then show ?thesis using ok by (auto simp: generateWeeklyPlan_def)
    next
      case ok2
      then show ?thesis using ok assms by (auto simp: generateWeeklyPlan_def)
    qed
  qed
qed

lemma generateWeeklyPlan_only_dinner_fails:
  assumes "\<And>k chosen beefUsed.
             pickRecipes recipes rnd k Dinner (dinners request) (dom recentHistory) chosen beefUsed
             = Inl (insufficientCandidates Dinner)"
    and "breakfasts request = 0" and "lunches request = 0"
  shows "generateWeeklyPlan recipes rnd fmt collate now request recentHistory
         = Inl (insufficientCandidates Dinner)"
proof -
  obtain k1 where p1:
    "pickRecipes recipes rnd 0 Breakfast 0 (dom recentHistory) {} False = Inr ([], False, {}, k1)"
    using pickRecipes_zero by blast
  obtain k2 where p2:
    "pickRecipes recipes rnd k1 Lunch 0 (dom recentHistory) {} False = Inr ([], False, {}, k2)"
    using pickRecipes_zero by blast
  show ?thesis
    by (simp add: generateWeeklyPlan_def assms p1 p2)
qed

text \<open>
  C9. For every meal type and count: when a scan of all the filtered candidates, in the
  shuffled order, accepts fewer than \<open>cnt\<close> of them, \<open>pickRecipes\<close> fails with the error
  whose message names the meal type. And when the only dinners of the catalog are two beef
  recipes, the history is empty and two dinners are requested, \<open>generateWeeklyPlan\<close> fails
  with such an error for every random source: the error of the dinner slot when no
  breakfast and no lunch is requested, and otherwise that of the dinner slot or of a slot
  selected before it.
\<close>

theorem insufficient_candidates:
  "(int (length (acceptedInFull (fst (shuffle rnd k (filter (\<lambda>r. mealType r = mt \<and> recipeId r \<notin> recent) recipes)))
                   chosen beefUsed)) < cnt
      \<longrightarrow> pickRecipes recipes rnd k mt cnt recent chosen beefUsed
          = Inl (Error (''Not enough '' @ mealTypeStr mt @ '' recipes available without repeats or beef overage.'')))
   \<and> (filter (\<lambda>r. mealType r = Dinner) recipes = [d1, d2] \<and> isBeef d1 \<and> isBeef d2 \<and> dinners request = 2
      \<longrightarrow> (\<exists>mt'. generateWeeklyPlan recipes rnd fmt collate now request Map.empty
                  = Inl (insufficientCandidates mt'))
        \<and> (breakfasts request = 0 \<and> lunches request = 0
             \<longrightarrow> generateWeeklyPlan recipes rnd fmt collate now request Map.empty
                 = Inl (insufficientCandidates Dinner)))"
proof (intro conjI impI)
  assume "int (length (acceptedInFull (fst (shuffle rnd k (filter (\<lambda>r. mealType r = mt \<and> recipeId r \<notin> recent) recipes)))
                   chosen beefUsed)) < cnt"
  then have "pickRecipes recipes rnd k mt cnt recent chosen beefUsed = Inl (insufficientCandidates mt)"
    by (rule pickRecipes_few)
  then show "pickRecipes recipes rnd k mt cnt recent chosen beefUsed
          = Inl (Error (''Not enough '' @ mealTypeStr mt @ '' recipes available without repeats or beef overage.''))"
    by (simp only: insufficientCandidates_def)
next
  assume a: "filter (\<lambda>r. mealType r = Dinner) recipes = [d1, d2] \<and> isBeef d1 \<and> isBeef d2 \<and> dinners request = 2"
  then have beef: "\<forall>r\<in>set recipes. mealType r = Dinner \<longrightarrow> isBeef r"
    using two_beef_dinners by blast
  have fail: "pickRecipes recipes rnd k Dinner (dinners request) (dom Map.empty) chosen beefUsed
              = Inl (insufficientCandidates Dinner)" for k chosen beefUsed
    using pickRecipes_all_beef [OF beef] a by simp
  show "\<exists>mt'. generateWeeklyPlan recipes rnd fmt collate now request Map.empty
                  = Inl (insufficientCandidates mt')"
    using fail by (rule generateWeeklyPlan_dinner_fails)
  show "generateWeeklyPlan recipes rnd fmt collate now request Map.empty = Inl (insufficientCandidates Dinner)"
    if "breakfasts request = 0 \<and> lunches request = 0"
    using generateWeeklyPlan_only_dinner_fails [OF fail] that by blast
qed

theorem insufficient_candidates_witness:
  "int (length (acceptedInFull (fst (shuffle (\<lambda>k. 0) 0 (filter (\<lambda>r. mealType r = Dinner \<and> recipeId r \<notin> {}) [steak, ribs])))
                  {} False)) < 2
   \<and> pickRecipes [steak, ribs] (\<lambda>k. 0) 0 Dinner 2 {} {} False
       = Inl (Error ''Not enough dinner recipes available without repeats or beef overage.'')
   \<and> filter (\<lambda>r. mealType r = Dinner) [steak, ribs] = [steak, ribs] \<and> isBeef steak \<and> isBeef ribs
   \<and> dinners emptyRequest2 = 2 \<and> breakfasts emptyRequest2 = 0 \<and> lunches emptyRequest2 = 0
   \<and> generateWeeklyPlan [steak, ribs] (\<lambda>k. 0) demoLabel asciiCollate 0 emptyRequest2 Map.empty
       = Inl (insufficientCandidates Dinner)"
proof -
  have few: "int (length (acceptedInFull (fst (shuffle (\<lambda>k. 0) 0
               (filter (\<lambda>r. mealType r = Dinner \<and> recipeId r \<notin> {}) [steak, ribs]))) {} False)) < 2"
    by (simp add: shuffle_def steak_def ribs_def isBeef_def)
  have scen: "filter (\<lambda>r. mealType r = Dinner) [steak, ribs] = [steak, ribs] \<and> isBeef steak \<and> isBeef ribs
              \<and> dinners emptyRequest2 = 2"
    by (simp add: steak_def ribs_def isBeef_def emptyRequest2_def)
  have zero: "breakfasts emptyRequest2 = 0 \<and> lunches emptyRequest2 = 0"
    by (simp add: emptyRequest2_def)
  note inst = insufficient_candidates [of "\<lambda>k. 0" 0 Dinner "{}" "[steak, ribs]" "{}" False 2 steak ribs
      emptyRequest2 demoLabel asciiCollate 0]
  from inst few have "pickRecipes [steak, ribs] (\<lambda>k. 0) 0 Dinner 2 {} {} False
       = Inl (Error (''Not enough '' @ mealTypeStr Dinner @ '' recipes available without repeats or beef overage.''))"
    by blast
  moreover from inst scen zero have "generateWeeklyPlan [steak, ribs] (\<lambda>k. 0) demoLabel asciiCollate 0 emptyRequest2 Map.empty
       = Inl (insufficientCandidates Dinner)"
    by blast
  ultimately show ?thesis using few scen zero by simp
qed

section \<open>The contract of the variety repairer\<close>

lemma repair_replaces_one:
  assumes noib: "\<not> list_ex isIberian plan" and dist: "distinct (map recipeId plan)"
    and ok: "ensureSpanishOrMexican recipes rnd k plan recent chosen beefUsed = Inr (plan', beefUsed', chosen', k')"
  shows "\<exists>i c. i < length plan
               \<and> (\<forall>j<i. \<forall>x\<in>set recipes. \<not> replaces recent chosen beefUsed (plan ! j) x)
               \<and> c \<in> set recipes \<and> replaces recent chosen beefUsed (plan ! i) c
               \<and> plan' = plan[i := c] \<and> c \<noteq> plan ! i \<and> mealType c = mealType (plan ! i)
               \<and> chosen' = insert (recipeId c) (chosen - {recipeId (plan ! i)})
               \<and> beefUsed' = (isBeef c \<or> beefUsed)"
proof -
  from ok noib
  have "ensureLoop recipes rnd k plan recent chosen beefUsed plan = Inr (plan', beefUsed', chosen', k')"
    by (simp add: ensureSpanishOrMexican_def)
  from ensureLoop_Inr [OF this] obtain pre t post c where
    split: "plan = pre @ t # post"
    and first: "\<forall>u\<in>set pre. \<forall>x\<in>set recipes. \<not> replaces recent chosen beefUsed u x"
    and c: "c \<in> set recipes" "replaces recent chosen beefUsed t c"
    and res: "plan' = substitute t c plan" "beefUsed' = (isBeef c \<or> beefUsed)"
      "chosen' = insert (recipeId c) (chosen - {recipeId t})"
    by blast
  let ?i = "length pre"
  have i: "?i < length plan" and ti: "plan ! ?i = t"
    by (simp_all add: split)
  have before: "\<forall>j<?i. \<forall>x\<in>set recipes. \<not> replaces recent chosen beefUsed (plan ! j) x"
    using first by (simp add: split nth_append)
  have "distinct (map recipeId (pre @ t # post))" using dist split by simp
  then have "plan' = pre @ c # post"
    using res(1) split by (simp add: substitute_distinct)
  then have upd: "plan' = plan[?i := c]" by (simp add: split)
  have "isIberian c" and mt: "mealType c = mealType t"
    using replaces_props [OF c(2)] by simp_all
  moreover have "\<not> isIberian t" using noib split by (simp add: list_ex_iff)
  ultimately have ne: "c \<noteq> t" by blast
  show ?thesis
    using i before c upd ne mt res(2,3) unfolding ti [symmetric] by blast
qed

text \<open>
  The selection that \<open>generateWeeklyPlan\<close> hands to the repairer is made of the selections
  of three slot selections that have succeeded one after the other, from the empty set
  \<open>chosen\<close>. Its identifiers are pairwise distinct.
\<close>

lemma passed_selection_distinct:
  assumes p1: "pickRecipes recipes rnd 0 Breakfast nb recent {} False = Inr (bs, b1, c1, k1)"
    and p2: "pickRecipes recipes rnd k1 Lunch nl recent c1 b1 = Inr (ls, b2, c2, k2)"
    and p3: "pickRecipes recipes rnd k2 Dinner nd recent c2 b2 = Inr (ds, b3, c3, k3)"
  shows "distinct (map recipeId (bs @ ls @ ds))"
proof -
  have i1: "planInv recent ([] @ bs) c1 b1"
    using p1 planInv_start by (rule pickRecipes_Inr(1))
  then have i2: "planInv recent (bs @ ls) c2 b2"
    using pickRecipes_Inr(1) [OF p2, of bs] by simp
  then have "planInv recent ((bs @ ls) @ ds) c3 b3"
    using pickRecipes_Inr(1) [OF p3, of "bs @ ls"] by simp
  then show ?thesis by (simp add: planInv_def)
qed

text \<open>
  C8. A selection that holds a Spanish or Mexican recipe is returned unchanged, with the
  set \<open>chosen\<close>, the beef flag and the random source as they were. Otherwise, on the
  selection that the planner hands over (the breakfasts, lunches and dinners of three
  successful slot selections, with the set \<open>chosen\<close> and the beef flag they leave), a
  successful repair replaces exactly one entry, at its own position and by a recipe of the
  same meal type: the first entry of the selection for which the catalog holds a valid
  replacement. Nothing else of the selection changes; the replaced identifier leaves
  \<open>chosen\<close>, the new one enters it, and the beef flag is set when the new recipe is beef.
\<close>

theorem variety_repair_contract:
  "(list_ex isIberian sel
      \<longrightarrow> ensureSpanishOrMexican recipes rnd k sel recent chosen beefUsed = Inr (sel, beefUsed, chosen, k))
   \<and> (pickRecipes recipes rnd 0 Breakfast nb recent {} False = Inr (bs, b1, c1, k1)
       \<and> pickRecipes recipes rnd k1 Lunch nl recent c1 b1 = Inr (ls, b2, c2, k2)
       \<and> pickRecipes recipes rnd k2 Dinner nd recent c2 b2 = Inr (ds, b3, c3, k3)
       \<and> plan = bs @ ls @ ds \<and> \<not> list_ex isIberian plan
       \<and> ensureSpanishOrMexican recipes rnd k3 plan recent c3 b3 = Inr (plan', beefUsed', chosen', k')
      \<longrightarrow> (\<exists>i c. i < length plan
               \<and> (\<forall>j<i. \<forall>x\<in>set recipes. \<not> replaces recent c3 b3 (plan ! j) x)
               \<and> c \<in> set recipes \<and> replaces recent c3 b3 (plan ! i) c
               \<and> plan' = plan[i := c] \<and> c \<noteq> plan ! i \<and> mealType c = mealType (plan ! i)
               \<and> chosen' = insert (recipeId c) (c3 - {recipeId (plan ! i)})
               \<and> beefUsed' = (isBeef c \<or> b3)))"
proof (intro conjI impI)
  assume "list_ex isIberian sel"
  then show "ensureSpanishOrMexican recipes rnd k sel recent chosen beefUsed = Inr (sel, beefUsed, chosen, k)"
    by (simp add: ensureSpanishOrMexican_def)
next
  assume a: "pickRecipes recipes rnd 0 Breakfast nb recent {} False = Inr (bs, b1, c1, k1)
       \<and> pickRecipes recipes rnd k1 Lunch nl recent c1 b1 = Inr (ls, b2, c2, k2)
       \<and> pickRecipes recipes rnd k2 Dinner nd recent c2 b2 = Inr (ds, b3, c3, k3)
       \<and> plan = bs @ ls @ ds \<and> \<not> list_ex isIberian plan
       \<and> ensureSpanishOrMexican recipes rnd k3 plan recent c3 b3 = Inr (plan', beefUsed', chosen', k')"
  then have p: "pickRecipes recipes rnd 0 Breakfast nb recent {} False = Inr (bs, b1, c1, k1)"
      "pickRecipes recipes rnd k1 Lunch nl recent c1 b1 = Inr (ls, b2, c2, k2)"
      "pickRecipes recipes rnd k2 Dinner nd recent c2 b2 = Inr (ds, b3, c3, k3)"
    and plan: "plan = bs @ ls @ ds" and noib: "\<not> list_ex isIberian plan"
    and ok: "ensureSpanishOrMexican recipes rnd k3 plan recent c3 b3 = Inr (plan', beefUsed', chosen', k')"
    by blast+
  have "distinct (map recipeId plan)"
    unfolding plan using p by (rule passed_selection_distinct)
  with noib show "\<exists>i c. i < length plan
               \<and> (\<forall>j<i. \<forall>x\<in>set recipes. \<not> replaces recent c3 b3 (plan ! j) x)
               \<and> c \<in> set recipes \<and> replaces recent c3 b3 (plan ! i) c
               \<and> plan' = plan[i := c] \<and> c \<noteq> plan ! i \<and> mealType c = mealType (plan ! i)
               \<and> chosen' = insert (recipeId c) (c3 - {recipeId (plan ! i)})
               \<and> beefUsed' = (isBeef c \<or> b3)"
    using ok by (rule repair_replaces_one)
qed

lemma demo_pick_one_dinner:
  "pickRecipes demoCatalog (\<lambda>k. 0) 0 Dinner 1 (dom demoHistory) {''oats''} False
   = Inr ([steak], True, {''steak'', ''oats''}, 1)"
  by (simp add: pickRecipes_def demoCatalog_def demoHistory_def oats_def paella_def steak_def tagine_def
      shuffle_def pickStep_def isBeef_def)

lemma demo_repair:
  "ensureSpanishOrMexican demoCatalog (\<lambda>k. 0) 1 [oats, steak] (dom demoHistory) {''steak'', ''oats''} True
   = Inr ([oats, paella], True, insert ''paella'' ({''steak'', ''oats''} - {''steak''}), 7)"
  by (simp add: ensureSpanishOrMexican_def isIberian_def demoCatalog_def demoHistory_def shuffle_def
      replaces_def substitute_def isBeef_def oats_def paella_def steak_def tagine_def)

theorem variety_repair_contract_witness:
  "list_ex isIberian [paella]
   \<and> ensureSpanishOrMexican demoCatalog (\<lambda>k. 0) 0 [paella] (dom demoHistory) {''paella''} False
       = Inr ([paella], False, {''paella''}, 0)
   \<and> pickRecipes demoCatalog (\<lambda>k. 0) 0 Breakfast 1 (dom demoHistory) {} False = Inr ([oats], False, {''oats''}, 0)
   \<and> pickRecipes demoCatalog (\<lambda>k. 0) 0 Lunch 0 (dom demoHistory) {''oats''} False = Inr ([], False, {''oats''}, 0)
   \<and> pickRecipes demoCatalog (\<lambda>k. 0) 0 Dinner 1 (dom demoHistory) {''oats''} False
       = Inr ([steak], True, {''steak'', ''oats''}, 1)
   \<and> [oats, steak] = [oats] @ [] @ [steak] \<and> \<not> list_ex isIberian [oats, steak]
   \<and> ensureSpanishOrMexican demoCatalog (\<lambda>k. 0) 1 [oats, steak] (dom demoHistory) {''steak'', ''oats''} True
       = Inr ([oats, paella], True, insert ''paella'' ({''steak'', ''oats''} - {''steak''}), 7)
   \<and> (\<exists>i c. i < length [oats, steak] \<and> c \<in> set demoCatalog \<and> [oats, paella] = [oats, steak][i := c]
             \<and> c \<noteq> [oats, steak] ! i \<and> mealType c = mealType ([oats, steak] ! i))"
proof -
  have ib: "list_ex isIberian [paella]" by (simp add: isIberian_def paella_def)
  have cat: "[oats, steak] = [oats] @ [] @ [steak]" by simp
  have noib: "\<not> list_ex isIberian [oats, steak]" by (simp add: isIberian_def oats_def steak_def)
  note unchanged = variety_repair_contract [of "[paella]" demoCatalog "\<lambda>k. 0" 0 "dom demoHistory"
      "{''paella''}" False, THEN conjunct1, THEN mp, OF ib]
  note repaired = variety_repair_contract [of _ demoCatalog "\<lambda>k. 0" _ "dom demoHistory" _ _
      1 "[oats]" False "{''oats''}" 0 0 "[]" False "{''oats''}" 0 1 "[steak]" True "{''steak'', ''oats''}" 1
      "[oats, steak]" "[oats, paella]" True "insert ''paella'' ({''steak'', ''oats''} - {''steak''})" 7,
      THEN conjunct2, THEN mp,
      OF conjI [OF demo_pick_breakfast conjI [OF demo_pick_lunch conjI [OF demo_pick_one_dinner
           conjI [OF cat conjI [OF noib demo_repair]]]]]]
  from repaired obtain i c where
    "i < length [oats, steak]" "c \<in> set demoCatalog" "[oats, paella] = [oats, steak][i := c]"
    "c \<noteq> [oats, steak] ! i" "mealType c = mealType ([oats, steak] ! i)"
    by (elim exE conjE)
  then have ex: "\<exists>i c. i < length [oats, steak] \<and> c \<in> set demoCatalog \<and> [oats, paella] = [oats, steak][i := c]
             \<and> c \<noteq> [oats, steak] ! i \<and> mealType c = mealType ([oats, steak] ! i)"
    by (intro exI conjI)
  show ?thesis
    by (intro conjI)
      (rule ib unchanged ex demo_pick_breakfast demo_pick_lunch demo_pick_one_dinner cat noib demo_repair)+
qed

section \<open>The shopping list\<close>




































text \<open>
  C7. The merge rule (of two entries of which one carries a quantity, the merged line
  keeps that quantity) fails where the entry met first has the quantity \<open>0\<close> and the entry
  met second has a quantity: the merged line keeps \<open>0\<close> and takes only the unit, while in
  the other order it keeps the quantity \<open>2\<close>.
\<close>

theorem zero_quantity_hides_later_quantity:
  "aggregateShopping asciiCollate [saltToTaste, saltMeasured] = [ing ''salt'' (Some 0) (Some ''tsp'')]
   \<and> aggregateShopping asciiCollate [saltMeasured, saltToTaste] = [ing ''salt'' (Some 2) (Some ''tsp'')]"
  by code_simp

end
